theory Spec2Isabelle
  imports Main "HOL-Library.Sublist"
begin

section \<open>Air cargo planning problem: formulation and state transitions\<close>

text \<open>
  A shallow embedding of \<^verbatim>\<open>my_air_cargo_problems.py\<close>: the class
  \<^verbatim>\<open>AirCargoProblem\<close> with its grounder \<^verbatim>\<open>get_actions\<close>, the transition
  functions \<^verbatim>\<open>actions\<close> and \<^verbatim>\<open>result\<close>, \<^verbatim>\<open>goal_test\<close>, the heuristics,
  and the scenario \<^verbatim>\<open>air_cargo_p1\<close>.

  The module imports its expression type, the knowledge base, the action class and the
  state codec from \<^verbatim>\<open>aimacode\<close> and \<^verbatim>\<open>lp_utils\<close>. Those helpers are modelled
  below from the specification's data model and component contracts; each such definition
  says so.
\<close>

subsection \<open>Literals, clauses and the knowledge base\<close>

text \<open>
  Modelled from the spec: the expression type \<^verbatim>\<open>Expr\<close> built by \<^verbatim>\<open>expr\<close>
  (\<^verbatim>\<open>aimacode.utils\<close>). A literal is a predicate symbol applied to an ordered tuple of
  terms and is compared structurally; a term is an opaque name. So
  \<^verbatim>\<open>expr("At({}, {})".format(c, a))\<close> is \<open>Expr ''At'' [c, a]\<close>.
\<close>

datatype expr = Expr (op_of: string) (args_of: "string list")

text \<open>
  Modelled from the spec: the clauses a knowledge base holds. A clause is a literal or a
  negated literal; the test \<^verbatim>\<open>e.op == '~'\<close> of the source is the test for \<open>Neg\<close>.
\<close>

datatype clause = Pos expr | Neg expr

text \<open>
  Modelled from the spec: \<^verbatim>\<open>FluentState\<close> (\<^verbatim>\<open>lp_utils\<close>), the literals asserted
  true and the literals asserted false, with its two sentences. A conjunctive sentence is
  represented by the list of its conjuncts.
\<close>

record FluentState =
  pos :: "expr list"
  neg :: "expr list"

definition sentence :: "FluentState \<Rightarrow> clause list" where
  "sentence fs = map Pos (pos fs) @ map Neg (neg fs)"

definition pos_sentence :: "FluentState \<Rightarrow> clause list" where
  "pos_sentence fs = map Pos (pos fs)"

text \<open>
  Modelled from the spec: \<^verbatim>\<open>PropKB\<close> (\<^verbatim>\<open>aimacode.logic\<close>), the scratch workspace
  that holds a collection of clauses. \<open>tell\<close> adds the conjuncts of a sentence,
  \<open>retract\<close> takes a clause out; the field \<^verbatim>\<open>kb.clauses\<close> is the list itself.
  \<open>retract\<close> removes one occurrence, which on the duplicate-free atom universe of the
  spec's data model removes the clause.
\<close>

type_synonym PropKB = "clause list"

definition PropKB_new :: PropKB where
  "PropKB_new = []"

definition tell :: "PropKB \<Rightarrow> clause list \<Rightarrow> PropKB" where
  "tell kb cs = kb @ cs"

definition retract :: "PropKB \<Rightarrow> clause \<Rightarrow> PropKB" where
  "retract kb c = remove1 c kb"

subsection \<open>Actions\<close>

text \<open>
  Modelled from the spec: the class \<^verbatim>\<open>Action\<close> (\<^verbatim>\<open>aimacode.planning\<close>), with the
  fields of the spec's data model. The constructor takes the action expression, the pair
  of precondition lists and the pair of effect lists, as the grounder passes them.
\<close>

record Action =
  name :: string
  args :: "string list"
  precond_pos :: "expr list"
  precond_neg :: "expr list"
  effect_add :: "expr list"
  effect_rem :: "expr list"

definition Action_new :: "expr \<Rightarrow> expr list \<times> expr list \<Rightarrow> expr list \<times> expr list \<Rightarrow> Action" where
  "Action_new action precond effect =
     \<lparr>name = op_of action, args = args_of action,
      precond_pos = fst precond, precond_neg = snd precond,
      effect_add = fst effect, effect_rem = snd effect\<rparr>"

text \<open>
  Modelled from the spec: \<^verbatim>\<open>Action.check_precond\<close>. An action is applicable iff every
  positive precondition is a clause of the knowledge base and no negative precondition is.
  The actions are ground, so substituting their own arguments leaves the literals as they
  are.
\<close>

definition check_precond :: "Action \<Rightarrow> PropKB \<Rightarrow> bool" where
  "check_precond a kb \<longleftrightarrow>
     list_all (\<lambda>c. Pos c \<in> set kb) (precond_pos a) \<and>
     list_all (\<lambda>c. Pos c \<notin> set kb) (precond_neg a)"

text \<open>
  Modelled from the spec: calling an action on a knowledge base, \<^verbatim>\<open>action(kb, args)\<close>.
  The spec describes the reference behaviour as applying the effects whether or not the
  action is applicable: every literal of \<open>effect_rem\<close> is retracted, then every literal
  of \<open>effect_add\<close> is told.
\<close>

definition act :: "Action \<Rightarrow> PropKB \<Rightarrow> PropKB" where
  "act a kb =
     fold (\<lambda>c kb. tell kb [Pos c]) (effect_add a)
       (fold (\<lambda>c kb. retract kb (Pos c)) (effect_rem a) kb)"

subsection \<open>The state codec\<close>

text \<open>
  Modelled from the spec: \<^verbatim>\<open>encode_state\<close> and \<^verbatim>\<open>decode_state\<close>
  (\<^verbatim>\<open>lp_utils\<close>). A state is a string of \<^verbatim>\<open>T\<close> and \<^verbatim>\<open>F\<close>, one character
  per literal of the atom universe (\<^verbatim>\<open>'FTTTFF'\<close> in the docstring of
  \<^verbatim>\<open>actions\<close>). Encoding writes \<^verbatim>\<open>T\<close> at a position iff its literal is among the
  true literals; only the true literals are consulted. Decoding partitions the universe by
  the character at each position: the literal is true iff the character is \<^verbatim>\<open>T\<close>.
\<close>

definition encode_state :: "FluentState \<Rightarrow> expr list \<Rightarrow> string" where
  "encode_state fs fluent_map =
     map (\<lambda>fluent. if fluent \<in> set (pos fs) then CHR ''T'' else CHR ''F'') fluent_map"

definition decode_state :: "string \<Rightarrow> expr list \<Rightarrow> FluentState" where
  "decode_state state fluent_map =
     \<lparr>pos = map snd (filter (\<lambda>(char, fluent). char = CHR ''T'') (zip state fluent_map)),
      neg = map snd (filter (\<lambda>(char, fluent). char \<noteq> CHR ''T'') (zip state fluent_map))\<rparr>"

subsection \<open>The grounder\<close>

text \<open>
  The three nested loops of \<^verbatim>\<open>get_actions\<close>. Each loop starts from an empty list and
  appends one action per iteration of its innermost body; a \<^verbatim>\<open>for\<close> loop over a list
  is a \<open>fold\<close> that threads the list built so far.
\<close>

definition load_action :: "string \<Rightarrow> string \<Rightarrow> string \<Rightarrow> Action" where
  "load_action c p a =
     (let precond_pos = [Expr ''At'' [c, a], Expr ''At'' [p, a]];
          precond_neg = [];
          effect_add = [Expr ''In'' [c, p]];
          effect_rem = [Expr ''At'' [c, a]]
      in Action_new (Expr ''Load'' [c, p, a]) (precond_pos, precond_neg) (effect_add, effect_rem))"

definition load_actions :: "string list \<Rightarrow> string list \<Rightarrow> string list \<Rightarrow> Action list" where
  "load_actions cargos planes airports =
     fold (\<lambda>c loads.
       fold (\<lambda>p loads.
         fold (\<lambda>a loads. loads @ [load_action c p a]) airports loads) planes loads) cargos []"

definition unload_action :: "string \<Rightarrow> string \<Rightarrow> string \<Rightarrow> Action" where
  "unload_action c p a =
     (let precond_pos = [Expr ''In'' [c, p], Expr ''At'' [p, a]];
          precond_neg = [];
          effect_add = [Expr ''At'' [c, a]];
          effect_rem = [Expr ''In'' [c, p]]
      in Action_new (Expr ''Unload'' [c, p, a]) (precond_pos, precond_neg) (effect_add, effect_rem))"

definition unload_actions :: "string list \<Rightarrow> string list \<Rightarrow> string list \<Rightarrow> Action list" where
  "unload_actions cargos planes airports =
     fold (\<lambda>c unloads.
       fold (\<lambda>p unloads.
         fold (\<lambda>a unloads. unloads @ [unload_action c p a]) airports unloads) planes unloads) cargos []"

definition fly_action :: "string \<Rightarrow> string \<Rightarrow> string \<Rightarrow> Action" where
  "fly_action p fr to =
     (let precond_pos = [Expr ''At'' [p, fr]];
          precond_neg = [];
          effect_add = [Expr ''At'' [p, to]];
          effect_rem = [Expr ''At'' [p, fr]]
      in Action_new (Expr ''Fly'' [p, fr, to]) (precond_pos, precond_neg) (effect_add, effect_rem))"

definition fly_actions :: "string list \<Rightarrow> string list \<Rightarrow> Action list" where
  "fly_actions planes airports =
     fold (\<lambda>fr flys.
       fold (\<lambda>to flys.
         if fr \<noteq> to
         then fold (\<lambda>p flys. flys @ [fly_action p fr to]) planes flys
         else flys) airports flys) airports []"

definition get_actions :: "string list \<Rightarrow> string list \<Rightarrow> string list \<Rightarrow> Action list" where
  "get_actions cargos planes airports =
     load_actions cargos planes airports @ unload_actions cargos planes airports
       @ fly_actions planes airports"

subsection \<open>The problem\<close>

record AirCargoProblem =
  state_map :: "expr list"
  initial_state_TF :: string
  initial :: string
  goal :: "expr list"
  cargos :: "string list"
  planes :: "string list"
  airports :: "string list"
  actions_list :: "Action list"

definition AirCargoProblem_new ::
  "string list \<Rightarrow> string list \<Rightarrow> string list \<Rightarrow> FluentState \<Rightarrow> expr list \<Rightarrow> AirCargoProblem" where
  "AirCargoProblem_new cs ps as init g =
     (let state_map = pos init @ neg init;
          initial_state_TF = encode_state init state_map
      in \<lparr>state_map = state_map, initial_state_TF = initial_state_TF,
          initial = initial_state_TF, goal = g,
          cargos = cs, planes = ps, airports = as,
          actions_list = get_actions cs ps as\<rparr>)"

subsection \<open>Transitions, goal test and heuristics\<close>

definition actions :: "AirCargoProblem \<Rightarrow> string \<Rightarrow> Action list" where
  "actions self state =
     (let kb = tell PropKB_new (sentence (decode_state state (state_map self)))
      in filter (\<lambda>a. check_precond a kb) (actions_list self))"

text \<open>
  \<^verbatim>\<open>result\<close> runs the action on a fresh knowledge base and reads the clauses back,
  the negated ones into \<open>neg\<close> and the others into \<open>pos\<close>. (The source appends the
  negated clause itself to \<open>neg\<close>; the encoder never reads that list.)
\<close>

definition split_clauses :: "PropKB \<Rightarrow> expr list \<times> expr list" where
  "split_clauses kb =
     fold (\<lambda>e (pos, neg). case e of Neg l \<Rightarrow> (pos, neg @ [l]) | Pos l \<Rightarrow> (pos @ [l], neg))
       kb ([], [])"

definition result :: "AirCargoProblem \<Rightarrow> string \<Rightarrow> Action \<Rightarrow> string" where
  "result self state action =
     (let kb = tell PropKB_new (sentence (decode_state state (state_map self)));
          kb = act action kb;
          (pos, neg) = split_clauses kb
      in encode_state \<lparr>pos = pos, neg = neg\<rparr> (state_map self))"

fun goal_loop :: "expr list \<Rightarrow> PropKB \<Rightarrow> bool" where
  "goal_loop [] kb = True"
| "goal_loop (clause # rest) kb = (if Pos clause \<notin> set kb then False else goal_loop rest kb)"

definition goal_test :: "AirCargoProblem \<Rightarrow> string \<Rightarrow> bool" where
  "goal_test self state =
     (let kb = tell PropKB_new (pos_sentence (decode_state state (state_map self)))
      in goal_loop (goal self) kb)"

text \<open>
  Modelled from the spec: the search node \<^verbatim>\<open>Node\<close> (\<^verbatim>\<open>aimacode.search\<close>). The
  heuristics read only its state. Nodes are compared and hashed by their state, so the
  state is what a node contributes to a cache key.
\<close>

record Node =
  state :: string
  path_cost :: int

definition h_1 :: "AirCargoProblem \<Rightarrow> Node \<Rightarrow> int" where
  "h_1 self node = (let h_const = 1 in h_const)"

definition h_ignore_preconditions :: "AirCargoProblem \<Rightarrow> Node \<Rightarrow> int" where
  "h_ignore_preconditions self node =
     (let kb = tell PropKB_new (sentence (decode_state (state node) (state_map self)))
      in int (length (filter (\<lambda>g. Pos g \<notin> set kb) (goal self))))"


subsection \<open>Memoisation of the heuristics\<close>

text \<open>
  Both heuristics are decorated with \<^verbatim>\<open>lru_cache(maxsize=8192)\<close> of Python's
  \<^verbatim>\<open>functools\<close>. The decorator keeps one cache per decorated method, shared by all
  instances, keyed by the call's arguments \<^verbatim>\<open>(self, node)\<close>. The class defines no
  equality of its own, so \<^verbatim>\<open>self\<close> counts by identity: a problem is referred to by
  its reference in an object store \<open>heap\<close>.
\<close>

type_synonym cache_key = "nat \<times> string"

type_synonym lru = "(cache_key \<times> int) list"

definition maxsize :: nat where
  "maxsize = 8192"

text \<open>
  Modelled from the spec: the key of a call. A node enters the key by its state (nodes
  are compared and hashed by state), so the key is the pair of the problem's reference and
  the node's state.
\<close>

definition cache_key_of :: "nat \<Rightarrow> Node \<Rightarrow> cache_key" where
  "cache_key_of ref node = (ref, state node)"

text \<open>
  The cache is the list of its entries, most recently used first. A hit returns the stored
  value and moves the entry to the front; a miss calls the function, puts the new entry in
  front and drops the entry at the back, the least recently used one, once the capacity
  is exceeded.
\<close>

definition lru_call ::
  "(AirCargoProblem \<Rightarrow> Node \<Rightarrow> int) \<Rightarrow> (nat \<Rightarrow> AirCargoProblem) \<Rightarrow> lru \<Rightarrow> nat \<Rightarrow> Node
     \<Rightarrow> int \<times> lru" where
  "lru_call f heap cache ref node =
     (let key = cache_key_of ref node
      in case map_of cache key of
           Some v \<Rightarrow> (v, (key, v) # filter (\<lambda>e. fst e \<noteq> key) cache)
         | None \<Rightarrow> (let v = f (heap ref) node in (v, take maxsize ((key, v) # cache))))"





subsection \<open>The scenario \<^verbatim>\<open>air_cargo_p1\<close>\<close>

definition air_cargo_p1 :: AirCargoProblem where
  "air_cargo_p1 =
     (let cargos = [''C1'', ''C2''];
          planes = [''P1'', ''P2''];
          airports = [''JFK'', ''SFO''];
          pos = [Expr ''At'' [''C1'', ''SFO''],
                 Expr ''At'' [''C2'', ''JFK''],
                 Expr ''At'' [''P1'', ''SFO''],
                 Expr ''At'' [''P2'', ''JFK'']];
          neg = [Expr ''At'' [''C2'', ''SFO''],
                 Expr ''In'' [''C2'', ''P1''],
                 Expr ''In'' [''C2'', ''P2''],
                 Expr ''At'' [''C1'', ''JFK''],
                 Expr ''In'' [''C1'', ''P1''],
                 Expr ''In'' [''C1'', ''P2''],
                 Expr ''At'' [''P1'', ''JFK''],
                 Expr ''At'' [''P2'', ''SFO'']];
          init = \<lparr>pos = pos, neg = neg\<rparr>;
          goal = [Expr ''At'' [''C1'', ''JFK''],
                  Expr ''At'' [''C2'', ''SFO'']]
      in AirCargoProblem_new cargos planes airports init goal)"

text \<open>The six-step plan of the end-to-end scenario.\<close>

definition p1_plan :: "Action list" where
  "p1_plan =
     [load_action ''C1'' ''P1'' ''SFO'', fly_action ''P1'' ''SFO'' ''JFK'',
      unload_action ''C1'' ''P1'' ''JFK'', load_action ''C2'' ''P2'' ''JFK'',
      fly_action ''P2'' ''JFK'' ''SFO'', unload_action ''C2'' ''P2'' ''SFO'']"

text \<open>
  A caller that keeps the contract of \<^verbatim>\<open>result\<close> (``the action must be one of
  \<^verbatim>\<open>self.actions(state)\<close>''): it applies a plan step by step and stops with \<open>None\<close>
  at a step that \<open>actions\<close> does not offer.
\<close>

fun run_plan :: "AirCargoProblem \<Rightarrow> string \<Rightarrow> Action list \<Rightarrow> string option" where
  "run_plan self st [] = Some st"
| "run_plan self st (a # plan) =
     (if a \<in> set (actions self st) then run_plan self (result self st a) plan else None)"

subsection \<open>Notions of the specification\<close>

text \<open>
  The literals true in a state are the positive half of its decoding; by the closed-world
  assumption every other literal is false. A state is valid for a universe when it has one
  \<^verbatim>\<open>T\<close> or \<^verbatim>\<open>F\<close> per literal. \<open>encode_set\<close> is the encoder applied to a set of
  true literals, and \<open>applicable\<close> is applicability as the specification words it: every
  positive precondition true and every negative precondition false in the state.
\<close>

definition true_literals :: "string \<Rightarrow> expr list \<Rightarrow> expr set" where
  "true_literals st universe = set (pos (decode_state st universe))"

definition encode_set :: "expr set \<Rightarrow> expr list \<Rightarrow> string" where
  "encode_set T universe = map (\<lambda>l. if l \<in> T then CHR ''T'' else CHR ''F'') universe"

definition applicable :: "string \<Rightarrow> Action \<Rightarrow> expr list \<Rightarrow> bool" where
  "applicable st a universe \<longleftrightarrow>
     list_all (\<lambda>l. l \<in> true_literals st universe) (precond_pos a) \<and>
     list_all (\<lambda>l. l \<notin> true_literals st universe) (precond_neg a)"

definition valid_state :: "string \<Rightarrow> expr list \<Rightarrow> bool" where
  "valid_state st universe \<longleftrightarrow>
     length st = length universe \<and> list_all (\<lambda>c. c = CHR ''T'' \<or> c = CHR ''F'') st"

text \<open>The literals of the positive clauses of a knowledge base, in order.\<close>

fun pos_of :: "clause list \<Rightarrow> expr list" where
  "pos_of [] = []"
| "pos_of (Pos l # cs) = l # pos_of cs"
| "pos_of (Neg l # cs) = pos_of cs"

section \<open>The grounder: loops as comprehensions, counts and shapes\<close>

lemma fold_snoc_map: "fold (\<lambda>x acc. acc @ [f x]) xs acc = acc @ map f xs"
  by (induction xs arbitrary: acc) simp_all

lemma fold_append_concat: "fold (\<lambda>x acc. acc @ g x) xs acc = acc @ concat (map g xs)"
  by (induction xs arbitrary: acc) simp_all

lemma fly_inner_loop:
  "fold (\<lambda>to flys. if fr \<noteq> to then fold (\<lambda>p flys. flys @ [fly_action p fr to]) ps flys else flys)
       as flys
     = flys @ concat (map (\<lambda>to. map (\<lambda>p. fly_action p fr to) ps) (filter (\<lambda>to. fr \<noteq> to) as))"
  by (induction as arbitrary: flys) (simp_all add: fold_snoc_map)

lemma load_actions_concat:
  "load_actions cs ps as =
     concat (map (\<lambda>c. concat (map (\<lambda>p. map (\<lambda>a. load_action c p a) as) ps)) cs)"
  by (simp add: load_actions_def fold_snoc_map fold_append_concat)

lemma unload_actions_concat:
  "unload_actions cs ps as =
     concat (map (\<lambda>c. concat (map (\<lambda>p. map (\<lambda>a. unload_action c p a) as) ps)) cs)"
  by (simp add: unload_actions_def fold_snoc_map fold_append_concat)

lemma fly_actions_concat:
  "fly_actions ps as =
     concat (map (\<lambda>fr. concat (map (\<lambda>to. map (\<lambda>p. fly_action p fr to) ps)
                                  (filter (\<lambda>to. fr \<noteq> to) as))) as)"
  unfolding fly_actions_def fly_inner_loop by (rule trans [OF fold_append_concat]) simp

lemma length_concat_const:
  "(\<And>x. x \<in> set xs \<Longrightarrow> length (g x) = n) \<Longrightarrow> length (concat (map g xs)) = length xs * n"
  by (induction xs) simp_all

lemma length_load_actions: "length (load_actions cs ps as) = length cs * length ps * length as"
  by (simp add: load_actions_concat length_concat_const mult.assoc)

lemma length_unload_actions: "length (unload_actions cs ps as) = length cs * length ps * length as"
  by (simp add: unload_actions_concat length_concat_const mult.assoc)

lemma length_filter_neq_distinct:
  "distinct xs \<Longrightarrow> x \<in> set xs \<Longrightarrow> length (filter (\<lambda>y. x \<noteq> y) xs) = length xs - 1"
proof (induction xs)
  case Nil
  then show ?case by simp
next
  case (Cons y ys)
  show ?case
  proof (cases "x = y")
    case True
    with Cons.prems have "x \<notin> set ys" by simp
    then have "filter (\<lambda>z. x \<noteq> z) ys = ys" by (induction ys) auto
    with True show ?thesis by simp
  next
    case False
    with Cons.prems have "x \<in> set ys" "distinct ys" by simp_all
    with Cons.IH have "length (filter (\<lambda>z. x \<noteq> z) ys) = length ys - 1" by simp
    moreover from \<open>x \<in> set ys\<close> have "0 < length ys" by (rule length_pos_if_in_set)
    ultimately show ?thesis using False by simp
  qed
qed

lemma length_fly_actions:
  assumes "distinct as"
  shows "length (fly_actions ps as) = length ps * length as * (length as - 1)"
proof -
  have "length (fly_actions ps as) = length as * ((length as - 1) * length ps)"
    unfolding fly_actions_concat
    by (rule length_concat_const) (simp add: length_concat_const length_filter_neq_distinct assms)
  then show ?thesis by (simp add: mult_ac)
qed

lemma load_action_fields:
  "load_action c p a =
     \<lparr>name = ''Load'', args = [c, p, a],
      precond_pos = [Expr ''At'' [c, a], Expr ''At'' [p, a]], precond_neg = [],
      effect_add = [Expr ''In'' [c, p]], effect_rem = [Expr ''At'' [c, a]]\<rparr>"
  by (simp add: load_action_def Action_new_def)

lemma unload_action_fields:
  "unload_action c p a =
     \<lparr>name = ''Unload'', args = [c, p, a],
      precond_pos = [Expr ''In'' [c, p], Expr ''At'' [p, a]], precond_neg = [],
      effect_add = [Expr ''At'' [c, a]], effect_rem = [Expr ''In'' [c, p]]\<rparr>"
  by (simp add: unload_action_def Action_new_def)

lemma fly_action_fields:
  "fly_action p fr to =
     \<lparr>name = ''Fly'', args = [p, fr, to],
      precond_pos = [Expr ''At'' [p, fr]], precond_neg = [],
      effect_add = [Expr ''At'' [p, to]], effect_rem = [Expr ''At'' [p, fr]]\<rparr>"
  by (simp add: fly_action_def Action_new_def)

lemma set_load_actions:
  "set (load_actions cs ps as) = {load_action c p a | c p a. c \<in> set cs \<and> p \<in> set ps \<and> a \<in> set as}"
  unfolding load_actions_concat by auto

lemma set_unload_actions:
  "set (unload_actions cs ps as) =
     {unload_action c p a | c p a. c \<in> set cs \<and> p \<in> set ps \<and> a \<in> set as}"
  unfolding unload_actions_concat by auto

lemma set_fly_actions:
  "set (fly_actions ps as) =
     {fly_action p fr to | p fr to. p \<in> set ps \<and> fr \<in> set as \<and> to \<in> set as \<and> fr \<noteq> to}"
  unfolding fly_actions_concat by auto

lemma name_load_actions: "x \<in> set (load_actions cs ps as) \<Longrightarrow> name x = ''Load''"
  by (auto simp: set_load_actions load_action_fields)

lemma name_unload_actions: "x \<in> set (unload_actions cs ps as) \<Longrightarrow> name x = ''Unload''"
  by (auto simp: set_unload_actions unload_action_fields)

lemma name_fly_actions: "x \<in> set (fly_actions ps as) \<Longrightarrow> name x = ''Fly''"
  by (auto simp: set_fly_actions fly_action_fields)

lemma filter_all: "(\<And>x. x \<in> set xs \<Longrightarrow> P x) \<Longrightarrow> filter P xs = xs"
  by (induction xs) simp_all

lemma filter_none: "(\<And>x. x \<in> set xs \<Longrightarrow> \<not> P x) \<Longrightarrow> filter P xs = []"
  by (induction xs) simp_all

lemma filter_Load_get_actions:
  "filter (\<lambda>x. name x = ''Load'') (get_actions cs ps as) = load_actions cs ps as"
proof -
  have "filter (\<lambda>x. name x = ''Load'') (load_actions cs ps as) = load_actions cs ps as"
    by (rule filter_all) (rule name_load_actions)
  moreover have "filter (\<lambda>x. name x = ''Load'') (unload_actions cs ps as) = []"
    by (rule filter_none) (simp add: name_unload_actions)
  moreover have "filter (\<lambda>x. name x = ''Load'') (fly_actions ps as) = []"
    by (rule filter_none) (simp add: name_fly_actions)
  ultimately show ?thesis by (simp add: get_actions_def)
qed

lemma filter_Unload_get_actions:
  "filter (\<lambda>x. name x = ''Unload'') (get_actions cs ps as) = unload_actions cs ps as"
proof -
  have "filter (\<lambda>x. name x = ''Unload'') (load_actions cs ps as) = []"
    by (rule filter_none) (simp add: name_load_actions)
  moreover have "filter (\<lambda>x. name x = ''Unload'') (unload_actions cs ps as) = unload_actions cs ps as"
    by (rule filter_all) (rule name_unload_actions)
  moreover have "filter (\<lambda>x. name x = ''Unload'') (fly_actions ps as) = []"
    by (rule filter_none) (simp add: name_fly_actions)
  ultimately show ?thesis by (simp add: get_actions_def)
qed

lemma filter_Fly_get_actions:
  "filter (\<lambda>x. name x = ''Fly'') (get_actions cs ps as) = fly_actions ps as"
proof -
  have "filter (\<lambda>x. name x = ''Fly'') (load_actions cs ps as) = []"
    by (rule filter_none) (simp add: name_load_actions)
  moreover have "filter (\<lambda>x. name x = ''Fly'') (unload_actions cs ps as) = []"
    by (rule filter_none) (simp add: name_unload_actions)
  moreover have "filter (\<lambda>x. name x = ''Fly'') (fly_actions ps as) = fly_actions ps as"
    by (rule filter_all) (rule name_fly_actions)
  ultimately show ?thesis by (simp add: get_actions_def)
qed

lemma concat_map_filter_if:
  "concat (map g (filter P xs)) = concat (map (\<lambda>x. if P x then g x else []) xs)"
  by (induction xs) simp_all

text \<open>
  Claim C3. For cargo, plane and airport lists of lengths \<open>c\<close>, \<open>p\<close> and \<open>a\<close>, the
  grounder's list holds exactly \<open>c * p * a\<close> actions named Load, and they are the actions
  with positive preconditions \<open>At(c,a)\<close>, \<open>At(p,a)\<close>, add effect \<open>In(c,p)\<close> and remove
  effect \<open>At(c,a)\<close> for the cargos, planes and airports of the problem; exactly
  \<open>c * p * a\<close> actions named Unload, with positive preconditions \<open>In(c,p)\<close>,
  \<open>At(p,a)\<close>, add effect \<open>At(c,a)\<close> and remove effect \<open>In(c,p)\<close>; and the actions
  named Fly are those with precondition \<open>At(p,from)\<close>, add effect \<open>At(p,to)\<close> and
  remove effect \<open>At(p,from)\<close> for \<open>from \<noteq> to\<close>, of which there are exactly
  \<open>p * a * (a - 1)\<close> when the airports are pairwise different names (the airports form a
  set of terms). No action has a negative precondition.
\<close>

theorem grounding_counts_and_shapes:
  "length (filter (\<lambda>x. name x = ''Load'') (get_actions cs ps as))
     = length cs * length ps * length as
   \<and> set (filter (\<lambda>x. name x = ''Load'') (get_actions cs ps as))
     = {\<lparr>name = ''Load'', args = [c, p, a],
         precond_pos = [Expr ''At'' [c, a], Expr ''At'' [p, a]], precond_neg = [],
         effect_add = [Expr ''In'' [c, p]], effect_rem = [Expr ''At'' [c, a]]\<rparr>
        | c p a. c \<in> set cs \<and> p \<in> set ps \<and> a \<in> set as}
   \<and> length (filter (\<lambda>x. name x = ''Unload'') (get_actions cs ps as))
     = length cs * length ps * length as
   \<and> set (filter (\<lambda>x. name x = ''Unload'') (get_actions cs ps as))
     = {\<lparr>name = ''Unload'', args = [c, p, a],
         precond_pos = [Expr ''In'' [c, p], Expr ''At'' [p, a]], precond_neg = [],
         effect_add = [Expr ''At'' [c, a]], effect_rem = [Expr ''In'' [c, p]]\<rparr>
        | c p a. c \<in> set cs \<and> p \<in> set ps \<and> a \<in> set as}
   \<and> set (filter (\<lambda>x. name x = ''Fly'') (get_actions cs ps as))
     = {\<lparr>name = ''Fly'', args = [p, fr, to],
         precond_pos = [Expr ''At'' [p, fr]], precond_neg = [],
         effect_add = [Expr ''At'' [p, to]], effect_rem = [Expr ''At'' [p, fr]]\<rparr>
        | p fr to. p \<in> set ps \<and> fr \<in> set as \<and> to \<in> set as \<and> fr \<noteq> to}
   \<and> (distinct as \<longrightarrow>
        length (filter (\<lambda>x. name x = ''Fly'') (get_actions cs ps as))
          = length ps * length as * (length as - 1))
   \<and> length (get_actions cs ps as)
     = length (filter (\<lambda>x. name x = ''Load'') (get_actions cs ps as))
       + length (filter (\<lambda>x. name x = ''Unload'') (get_actions cs ps as))
       + length (filter (\<lambda>x. name x = ''Fly'') (get_actions cs ps as))"
proof -
  have fly: "distinct as \<longrightarrow> length (fly_actions ps as) = length ps * length as * (length as - 1)"
    by (simp add: length_fly_actions)
  have total: "length (get_actions cs ps as)
      = length (load_actions cs ps as) + length (unload_actions cs ps as) + length (fly_actions ps as)"
    by (simp add: get_actions_def)
  show ?thesis
    unfolding filter_Load_get_actions filter_Unload_get_actions filter_Fly_get_actions
      length_load_actions length_unload_actions
      set_load_actions set_unload_actions set_fly_actions
      load_action_fields unload_action_fields fly_action_fields
    using fly total by (simp add: length_load_actions length_unload_actions)
qed

theorem grounding_counts_and_shapes_witness:
  "distinct [''JFK'', ''SFO'']
   \<and> length (filter (\<lambda>x. name x = ''Load'')
        (get_actions [''C1'', ''C2''] [''P1'', ''P2''] [''JFK'', ''SFO''])) = 8
   \<and> length (filter (\<lambda>x. name x = ''Unload'')
        (get_actions [''C1'', ''C2''] [''P1'', ''P2''] [''JFK'', ''SFO''])) = 8
   \<and> length (filter (\<lambda>x. name x = ''Fly'')
        (get_actions [''C1'', ''C2''] [''P1'', ''P2''] [''JFK'', ''SFO''])) = 4"
  using grounding_counts_and_shapes [of "[''C1'', ''C2'']" "[''P1'', ''P2'']" "[''JFK'', ''SFO'']"]
  by simp

text \<open>
  The loop skips a pair of airports by comparing names, so an airport name listed twice
  yields no flight between its two occurrences.
\<close>

lemma fly_actions_repeated_airport_name: "fly_actions [''P1''] [''JFK'', ''JFK''] = []"
  by (simp add: fly_actions_def)

text \<open>
  Claim C10. The grounded list is the load segment, then the unload segment, then the fly
  segment. The load and the unload segment enumerate the cargos in the outermost loop,
  then the planes, then the airports. The fly segment enumerates the from-airports in the
  outermost loop, then the to-airports (skipping the from-airport), then the planes: it is
  grouped by airport pair, not by plane. The names and arguments of the grounded actions
  follow in the same order.
\<close>

theorem grounding_order:
  "get_actions cs ps as = load_actions cs ps as @ unload_actions cs ps as @ fly_actions ps as
   \<and> load_actions cs ps as = [load_action c p a. c \<leftarrow> cs, p \<leftarrow> ps, a \<leftarrow> as]
   \<and> unload_actions cs ps as = [unload_action c p a. c \<leftarrow> cs, p \<leftarrow> ps, a \<leftarrow> as]
   \<and> fly_actions ps as = [fly_action p fr to. fr \<leftarrow> as, to \<leftarrow> as, fr \<noteq> to, p \<leftarrow> ps]
   \<and> map (\<lambda>x. (name x, args x)) (get_actions cs ps as) =
       [(''Load'', [c, p, a]). c \<leftarrow> cs, p \<leftarrow> ps, a \<leftarrow> as]
       @ [(''Unload'', [c, p, a]). c \<leftarrow> cs, p \<leftarrow> ps, a \<leftarrow> as]
       @ [(''Fly'', [p, fr, to]). fr \<leftarrow> as, to \<leftarrow> as, fr \<noteq> to, p \<leftarrow> ps]"
proof -
  have names: "map (\<lambda>x. (name x, args x)) (get_actions cs ps as) =
       [(''Load'', [c, p, a]). c \<leftarrow> cs, p \<leftarrow> ps, a \<leftarrow> as]
       @ [(''Unload'', [c, p, a]). c \<leftarrow> cs, p \<leftarrow> ps, a \<leftarrow> as]
       @ [(''Fly'', [p, fr, to]). fr \<leftarrow> as, to \<leftarrow> as, fr \<noteq> to, p \<leftarrow> ps]"
    by (simp add: get_actions_def load_actions_concat unload_actions_concat fly_actions_concat
        concat_map_filter_if map_concat comp_def if_distrib [of "map _"]
        load_action_fields unload_action_fields fly_action_fields cong: if_cong)
  then show ?thesis
    by (simp add: get_actions_def load_actions_concat unload_actions_concat fly_actions_concat
        concat_map_filter_if)
qed

lemma air_cargo_p1_grounding_order:
  "map (\<lambda>x. (name x, args x)) (get_actions [''C1'', ''C2''] [''P1'', ''P2''] [''JFK'', ''SFO'']) =
     [(''Load'', [''C1'', ''P1'', ''JFK'']), (''Load'', [''C1'', ''P1'', ''SFO'']),
      (''Load'', [''C1'', ''P2'', ''JFK'']), (''Load'', [''C1'', ''P2'', ''SFO'']),
      (''Load'', [''C2'', ''P1'', ''JFK'']), (''Load'', [''C2'', ''P1'', ''SFO'']),
      (''Load'', [''C2'', ''P2'', ''JFK'']), (''Load'', [''C2'', ''P2'', ''SFO'']),
      (''Unload'', [''C1'', ''P1'', ''JFK'']), (''Unload'', [''C1'', ''P1'', ''SFO'']),
      (''Unload'', [''C1'', ''P2'', ''JFK'']), (''Unload'', [''C1'', ''P2'', ''SFO'']),
      (''Unload'', [''C2'', ''P1'', ''JFK'']), (''Unload'', [''C2'', ''P1'', ''SFO'']),
      (''Unload'', [''C2'', ''P2'', ''JFK'']), (''Unload'', [''C2'', ''P2'', ''SFO'']),
      (''Fly'', [''P1'', ''JFK'', ''SFO'']), (''Fly'', [''P2'', ''JFK'', ''SFO'']),
      (''Fly'', [''P1'', ''SFO'', ''JFK'']), (''Fly'', [''P2'', ''SFO'', ''JFK''])]"
  by code_simp

section \<open>The knowledge base and the codec\<close>

lemma pos_of_append: "pos_of (xs @ ys) = pos_of xs @ pos_of ys"
  by (induction xs rule: pos_of.induct) simp_all

lemma pos_of_map_Pos: "pos_of (map Pos ls) = ls"
  by (induction ls) simp_all

lemma pos_of_map_Neg: "pos_of (map Neg ls) = []"
  by (induction ls) simp_all

lemma Pos_in_set_iff: "Pos l \<in> set kb \<longleftrightarrow> l \<in> set (pos_of kb)"
  by (induction kb rule: pos_of.induct) auto

lemma pos_of_remove1: "pos_of (remove1 (Pos l) kb) = remove1 l (pos_of kb)"
  by (induction kb rule: pos_of.induct) auto

lemma split_clauses_fold:
  "fold (\<lambda>e (pos, neg). case e of Neg l \<Rightarrow> (pos, neg @ [l]) | Pos l \<Rightarrow> (pos @ [l], neg)) kb (ps, ns)
     = (ps @ pos_of kb, ns @ [l. Neg l \<leftarrow> kb])"
  by (induction kb arbitrary: ps ns rule: pos_of.induct) simp_all

lemma fst_split_clauses: "fst (split_clauses kb) = pos_of kb"
  by (simp add: split_clauses_def split_clauses_fold)

lemma pos_of_sentence: "pos_of (tell PropKB_new (sentence fs)) = pos fs"
  by (simp add: tell_def PropKB_new_def sentence_def pos_of_append pos_of_map_Pos pos_of_map_Neg)

lemma pos_of_pos_sentence: "pos_of (tell PropKB_new (pos_sentence fs)) = pos fs"
  by (simp add: tell_def PropKB_new_def pos_sentence_def pos_of_map_Pos)

lemma pos_of_fold_retract:
  "pos_of (fold (\<lambda>c kb. retract kb (Pos c)) rs kb) = fold remove1 rs (pos_of kb)"
  by (induction rs arbitrary: kb) (simp_all add: retract_def pos_of_remove1)

lemma pos_of_fold_tell: "pos_of (fold (\<lambda>c kb. tell kb [Pos c]) as kb) = pos_of kb @ as"
  by (induction as arbitrary: kb) (simp_all add: tell_def pos_of_append)

lemma pos_of_act: "pos_of (act a kb) = fold remove1 (effect_rem a) (pos_of kb) @ effect_add a"
  by (simp add: act_def pos_of_fold_retract pos_of_fold_tell)

lemma distinct_fold_remove1: "distinct xs \<Longrightarrow> distinct (fold remove1 rs xs)"
  by (induction rs arbitrary: xs) simp_all

lemma set_fold_remove1: "distinct xs \<Longrightarrow> set (fold remove1 rs xs) = set xs - set rs"
  by (induction rs arbitrary: xs) (auto simp: distinct_fold_remove1)

lemma distinct_pos_decode: "distinct U \<Longrightarrow> distinct (pos (decode_state st U))"
  by (simp add: decode_state_def distinct_map_filter map_snd_zip_take)

lemma pos_decode_subset: "set (pos (decode_state st U)) \<subseteq> set U"
  by (auto simp: decode_state_def dest: set_zip_rightD)

lemma pos_decode_Cons:
  "pos (decode_state (c # st) (u # U)) =
     (if c = CHR ''T'' then [u] else []) @ pos (decode_state st U)"
  by (simp add: decode_state_def)

text \<open>Decoding a valid state over a duplicate-free universe and encoding it again gives
  the state back.\<close>

lemma encode_decode:
  assumes "distinct U" "length st = length U"
    and "list_all (\<lambda>c. c = CHR ''T'' \<or> c = CHR ''F'') st"
  shows "encode_set (set (pos (decode_state st U))) U = st"
  using assms(2,1,3)
proof (induction st U rule: list_induct2)
  case Nil
  then show ?case by (simp add: encode_set_def)
next
  case (Cons c st u U)
  have notin: "u \<notin> set (pos (decode_state st U))"
    using Cons.prems(1) pos_decode_subset [of st U] by auto
  have rest:
    "map (\<lambda>l. if l \<in> set (pos (decode_state (c # st) (u # U))) then CHR ''T'' else CHR ''F'') U
      = map (\<lambda>l. if l \<in> set (pos (decode_state st U)) then CHR ''T'' else CHR ''F'') U"
    using Cons.prems(1) by (intro map_cong) (auto simp: pos_decode_Cons)
  have "map (\<lambda>l. if l \<in> set (pos (decode_state st U)) then CHR ''T'' else CHR ''F'') U = st"
    using Cons.IH Cons.prems by (simp add: encode_set_def)
  with rest notin Cons.prems(2) show ?case
    by (auto simp: encode_set_def pos_decode_Cons)
qed

section \<open>Transitions\<close>

text \<open>What \<open>result\<close> computes, read off the knowledge base: the true literals with one
  occurrence of each removed literal taken out, followed by the added literals.\<close>

lemma result_pos:
  "result self st a =
     encode_set
       (set (fold remove1 (effect_rem a) (pos (decode_state st (state_map self))) @ effect_add a))
       (state_map self)"
proof -
  let ?kb = "act a (tell PropKB_new (sentence (decode_state st (state_map self))))"
  obtain ps ns where sc: "split_clauses ?kb = (ps, ns)"
    by (cases "split_clauses ?kb")
  then have "ps = pos_of ?kb"
    using fst_split_clauses [of ?kb] by simp
  then have "ps = fold remove1 (effect_rem a) (pos (decode_state st (state_map self))) @ effect_add a"
    by (simp add: pos_of_act pos_of_sentence)
  with sc show ?thesis
    by (simp add: result_def Let_def encode_state_def encode_set_def)
qed

lemma result_set:
  assumes "distinct (state_map self)"
  shows "result self st a =
     encode_set (true_literals st (state_map self) - set (effect_rem a) \<union> set (effect_add a))
       (state_map self)"
  using assms by (simp add: result_pos true_literals_def set_fold_remove1 distinct_pos_decode)

lemma check_precond_applicable:
  "check_precond a (tell PropKB_new (sentence (decode_state st U))) \<longleftrightarrow> applicable st a U"
  by (simp add: check_precond_def applicable_def true_literals_def Pos_in_set_iff pos_of_sentence)

lemma actions_filter:
  "actions self st = filter (\<lambda>a. applicable st a (state_map self)) (actions_list self)"
  by (simp add: actions_def check_precond_applicable)

lemma goal_loop_iff: "goal_loop gs kb \<longleftrightarrow> (\<forall>g\<in>set gs. Pos g \<in> set kb)"
  by (induction gs) simp_all

lemma goal_test_iff:
  "goal_test self st \<longleftrightarrow> set (goal self) \<subseteq> true_literals st (state_map self)"
  by (auto simp: goal_test_def goal_loop_iff Pos_in_set_iff pos_of_pos_sentence true_literals_def)

lemma h_ignore_count:
  "h_ignore_preconditions self node =
     int (length (filter (\<lambda>g. g \<notin> true_literals (state node) (state_map self)) (goal self)))"
  by (simp add: h_ignore_preconditions_def Pos_in_set_iff pos_of_sentence true_literals_def)

lemma state_map_new [simp]: "state_map (AirCargoProblem_new cs ps as init g) = pos init @ neg init"
  by (simp add: AirCargoProblem_new_def Let_def)

lemma actions_list_new [simp]:
  "actions_list (AirCargoProblem_new cs ps as init g) = get_actions cs ps as"
  by (simp add: AirCargoProblem_new_def Let_def)

text \<open>
  Claim C1. For a problem whose atom universe has no repeated literal, every state and
  every action applicable in the state, \<open>result\<close> returns the encoding, against the
  universe, of the set obtained from the literals true in the state by removing the
  literals of \<open>effect_rem\<close> and adding those of \<open>effect_add\<close>.
\<close>

theorem result_applies_effects:
  assumes "distinct (state_map self)"
    and "applicable st a (state_map self)"
  shows "result self st a =
     encode_set (true_literals st (state_map self) - set (effect_rem a) \<union> set (effect_add a))
       (state_map self)"
  using assms(1) by (rule result_set)

theorem result_applies_effects_witness:
  "distinct (state_map air_cargo_p1)
   \<and> applicable ''TTTTFFFFFFFF'' (load_action ''C1'' ''P1'' ''SFO'') (state_map air_cargo_p1)
   \<and> result air_cargo_p1 ''TTTTFFFFFFFF'' (load_action ''C1'' ''P1'' ''SFO'') = ''FTTTFFFFTFFF''"
proof -
  have d: "distinct (state_map air_cargo_p1)"
    by code_simp
  have a: "applicable ''TTTTFFFFFFFF'' (load_action ''C1'' ''P1'' ''SFO'') (state_map air_cargo_p1)"
    by code_simp
  have e: "encode_set
      (true_literals ''TTTTFFFFFFFF'' (state_map air_cargo_p1)
         - set (effect_rem (load_action ''C1'' ''P1'' ''SFO''))
         \<union> set (effect_add (load_action ''C1'' ''P1'' ''SFO'')))
      (state_map air_cargo_p1) = ''FTTTFFFFTFFF''"
    by code_simp
  from result_applies_effects [OF d a] e d a show ?thesis by simp
qed

text \<open>
  Claim C2. For every state, \<open>actions\<close> returns exactly the applicable members of the
  problem's ground-action list, in the order of that list: the applicable load actions,
  then the applicable unload actions, then the applicable fly actions, each segment in
  grounding order.
\<close>

theorem actions_exactly_applicable_in_grounding_order:
  "actions self st = filter (\<lambda>a. applicable st a (state_map self)) (actions_list self)
   \<and> set (actions self st) = {a \<in> set (actions_list self). applicable st a (state_map self)}
   \<and> subseq (actions self st) (actions_list self)
   \<and> actions (AirCargoProblem_new cs ps as init g) st =
       filter (\<lambda>a. applicable st a (pos init @ neg init)) (load_actions cs ps as)
       @ filter (\<lambda>a. applicable st a (pos init @ neg init)) (unload_actions cs ps as)
       @ filter (\<lambda>a. applicable st a (pos init @ neg init)) (fly_actions ps as)"
  by (simp add: actions_filter get_actions_def)

text \<open>
  Claim C4. \<open>goal_test\<close> holds of a state iff every literal of the goal list is among the
  literals true in the state; so a goal with a literal outside the atom universe is
  satisfied by no state.
\<close>

theorem goal_test_iff_goal_true:
  "(goal_test self st \<longleftrightarrow> list_all (\<lambda>g. g \<in> true_literals st (state_map self)) (goal self))
   \<and> ((\<exists>g\<in>set (goal self). g \<notin> set (state_map self)) \<longrightarrow> \<not> goal_test self st)"
proof -
  have "true_literals st (state_map self) \<subseteq> set (state_map self)"
    by (simp add: true_literals_def pos_decode_subset)
  then show ?thesis
    by (auto simp: goal_test_iff list_all_iff)
qed

theorem goal_test_iff_goal_true_witness:
  "(\<exists>g\<in>set (goal (air_cargo_p1\<lparr>goal := [Expr ''At'' [''C3'', ''JFK'']]\<rparr>)).
       g \<notin> set (state_map (air_cargo_p1\<lparr>goal := [Expr ''At'' [''C3'', ''JFK'']]\<rparr>)))
   \<and> \<not> goal_test (air_cargo_p1\<lparr>goal := [Expr ''At'' [''C3'', ''JFK'']]\<rparr>) ''TTTTTTTTTTTT''"
proof -
  have out: "\<exists>g\<in>set (goal (air_cargo_p1\<lparr>goal := [Expr ''At'' [''C3'', ''JFK'']]\<rparr>)).
      g \<notin> set (state_map (air_cargo_p1\<lparr>goal := [Expr ''At'' [''C3'', ''JFK'']]\<rparr>))"
    by code_simp
  with goal_test_iff_goal_true
    [of "air_cargo_p1\<lparr>goal := [Expr ''At'' [''C3'', ''JFK'']]\<rparr>" "''TTTTTTTTTTTT''"]
  show ?thesis by blast
qed

text \<open>
  Claim C5. \<open>h_ignore_preconditions\<close> of a node is the number of entries of the goal list
  that are not among the literals true in the node's state, and it is not negative.
\<close>

theorem h_ignore_preconditions_counts_false_goals:
  "h_ignore_preconditions self node =
     int (length (filter (\<lambda>g. g \<notin> true_literals (state node) (state_map self)) (goal self)))
   \<and> 0 \<le> h_ignore_preconditions self node"
  by (simp add: h_ignore_count)

text \<open>
  Claim C6. In the scenario \<open>air_cargo_p1\<close> the initial state has exactly C1 and P1 at
  SFO and C2 and P2 at JFK true, and the goal is C1 at JFK and C2 at SFO. Each step of the
  plan Load(C1,P1,SFO), Fly(P1,SFO,JFK), Unload(C1,P1,JFK), Load(C2,P2,JFK),
  Fly(P2,JFK,SFO), Unload(C2,P2,SFO) is offered by \<open>actions\<close> in the state it is applied
  to, and applying the steps with \<open>result\<close> gives a state that passes \<open>goal_test\<close>. The
  initial state fails \<open>goal_test\<close>; \<open>h_ignore_preconditions\<close> is 2 on the initial state
  and 0 on the final state.
\<close>

theorem air_cargo_p1_plan_reaches_goal:
  "initial air_cargo_p1 = ''TTTTFFFFFFFF''
   \<and> pos (decode_state (initial air_cargo_p1) (state_map air_cargo_p1)) =
       [Expr ''At'' [''C1'', ''SFO''], Expr ''At'' [''C2'', ''JFK''],
        Expr ''At'' [''P1'', ''SFO''], Expr ''At'' [''P2'', ''JFK'']]
   \<and> goal air_cargo_p1 = [Expr ''At'' [''C1'', ''JFK''], Expr ''At'' [''C2'', ''SFO'']]
   \<and> map (\<lambda>x. (name x, args x)) p1_plan =
       [(''Load'', [''C1'', ''P1'', ''SFO'']), (''Fly'', [''P1'', ''SFO'', ''JFK'']),
        (''Unload'', [''C1'', ''P1'', ''JFK'']), (''Load'', [''C2'', ''P2'', ''JFK'']),
        (''Fly'', [''P2'', ''JFK'', ''SFO'']), (''Unload'', [''C2'', ''P2'', ''SFO''])]
   \<and> fold (\<lambda>a s. result air_cargo_p1 s a) p1_plan (initial air_cargo_p1) = ''FFFFTFFTFFTT''
   \<and> run_plan air_cargo_p1 (initial air_cargo_p1) p1_plan = Some ''FFFFTFFTFFTT''
   \<and> goal_test air_cargo_p1 ''FFFFTFFTFFTT''
   \<and> \<not> goal_test air_cargo_p1 (initial air_cargo_p1)
   \<and> h_ignore_preconditions air_cargo_p1 \<lparr>state = initial air_cargo_p1, path_cost = 0\<rparr> = 2
   \<and> h_ignore_preconditions air_cargo_p1 \<lparr>state = ''FFFFTFFTFFTT'', path_cost = 6\<rparr> = 0"
proof -
  have 1: "initial air_cargo_p1 = ''TTTTFFFFFFFF''"
    by code_simp
  have 2: "pos (decode_state (initial air_cargo_p1) (state_map air_cargo_p1)) =
       [Expr ''At'' [''C1'', ''SFO''], Expr ''At'' [''C2'', ''JFK''],
        Expr ''At'' [''P1'', ''SFO''], Expr ''At'' [''P2'', ''JFK'']]"
    by code_simp
  have 3: "goal air_cargo_p1 = [Expr ''At'' [''C1'', ''JFK''], Expr ''At'' [''C2'', ''SFO'']]"
    by code_simp
  have 4: "map (\<lambda>x. (name x, args x)) p1_plan =
       [(''Load'', [''C1'', ''P1'', ''SFO'']), (''Fly'', [''P1'', ''SFO'', ''JFK'']),
        (''Unload'', [''C1'', ''P1'', ''JFK'']), (''Load'', [''C2'', ''P2'', ''JFK'']),
        (''Fly'', [''P2'', ''JFK'', ''SFO'']), (''Unload'', [''C2'', ''P2'', ''SFO''])]"
    by code_simp
  have 5: "fold (\<lambda>a s. result air_cargo_p1 s a) p1_plan (initial air_cargo_p1) = ''FFFFTFFTFFTT''"
    by code_simp
  have 6: "run_plan air_cargo_p1 (initial air_cargo_p1) p1_plan = Some ''FFFFTFFTFFTT''"
    by code_simp
  have 7: "goal_test air_cargo_p1 ''FFFFTFFTFFTT''"
    by code_simp
  have 8: "\<not> goal_test air_cargo_p1 (initial air_cargo_p1)"
    by code_simp
  have 9: "h_ignore_preconditions air_cargo_p1 \<lparr>state = initial air_cargo_p1, path_cost = 0\<rparr> = 2"
    by code_simp
  have 10: "h_ignore_preconditions air_cargo_p1 \<lparr>state = ''FFFFTFFTFFTT'', path_cost = 6\<rparr> = 0"
    by code_simp
  from 1 2 3 4 5 6 7 8 9 10 show ?thesis by blast
qed

text \<open>
  Claim C7. For a problem whose atom universe has no repeated literal, when \<open>result\<close> is
  called with an action that is not applicable in the state, it still returns the state
  with the literals of \<open>effect_rem\<close> removed and those of \<open>effect_add\<close> added: it neither
  fails nor returns the state unchanged.
\<close>

theorem result_inapplicable_applies_effects:
  assumes "distinct (state_map self)"
    and "\<not> applicable st a (state_map self)"
  shows "result self st a =
     encode_set (true_literals st (state_map self) - set (effect_rem a) \<union> set (effect_add a))
       (state_map self)"
  using assms(1) by (rule result_set)

theorem result_inapplicable_applies_effects_witness:
  "distinct (state_map air_cargo_p1)
   \<and> \<not> applicable ''TTTTFFFFFFFF'' (unload_action ''C1'' ''P1'' ''JFK'') (state_map air_cargo_p1)
   \<and> result air_cargo_p1 ''TTTTFFFFFFFF'' (unload_action ''C1'' ''P1'' ''JFK'') = ''TTTTFFFTFFFF''"
proof -
  have d: "distinct (state_map air_cargo_p1)"
    by code_simp
  have a: "\<not> applicable ''TTTTFFFFFFFF'' (unload_action ''C1'' ''P1'' ''JFK'') (state_map air_cargo_p1)"
    by code_simp
  have e: "encode_set
      (true_literals ''TTTTFFFFFFFF'' (state_map air_cargo_p1)
         - set (effect_rem (unload_action ''C1'' ''P1'' ''JFK''))
         \<union> set (effect_add (unload_action ''C1'' ''P1'' ''JFK'')))
      (state_map air_cargo_p1) = ''TTTTFFFTFFFF''"
    by code_simp
  from result_inapplicable_applies_effects [OF d a] e d a show ?thesis by simp
qed

text \<open>
  Claim C8. For a problem whose atom universe has no repeated literal and a valid state of
  it, an action whose \<open>effect_add\<close> literals are all true in the state and whose
  \<open>effect_rem\<close> literals are all false in it leaves the state as it is.
\<close>

theorem result_irrelevant_effects_identity:
  assumes "distinct (state_map self)"
    and "valid_state st (state_map self)"
    and "list_all (\<lambda>l. l \<in> true_literals st (state_map self)) (effect_add a)"
    and "list_all (\<lambda>l. l \<notin> true_literals st (state_map self)) (effect_rem a)"
  shows "result self st a = st"
proof -
  have "true_literals st (state_map self) - set (effect_rem a) \<union> set (effect_add a)
      = set (pos (decode_state st (state_map self)))"
    using assms(3,4) by (auto simp: true_literals_def list_all_iff)
  then show ?thesis
    using assms(1,2) by (simp add: result_set encode_decode valid_state_def)
qed

theorem result_irrelevant_effects_identity_witness:
  "distinct (state_map air_cargo_p1)
   \<and> valid_state ''TTTTFFFFFFFF'' (state_map air_cargo_p1)
   \<and> list_all (\<lambda>l. l \<in> true_literals ''TTTTFFFFFFFF'' (state_map air_cargo_p1))
        (effect_add (fly_action ''P1'' ''JFK'' ''SFO''))
   \<and> list_all (\<lambda>l. l \<notin> true_literals ''TTTTFFFFFFFF'' (state_map air_cargo_p1))
        (effect_rem (fly_action ''P1'' ''JFK'' ''SFO''))
   \<and> result air_cargo_p1 ''TTTTFFFFFFFF'' (fly_action ''P1'' ''JFK'' ''SFO'') = ''TTTTFFFFFFFF''"
proof -
  have d: "distinct (state_map air_cargo_p1)"
    by code_simp
  have v: "valid_state ''TTTTFFFFFFFF'' (state_map air_cargo_p1)"
    by code_simp
  have a: "list_all (\<lambda>l. l \<in> true_literals ''TTTTFFFFFFFF'' (state_map air_cargo_p1))
        (effect_add (fly_action ''P1'' ''JFK'' ''SFO''))"
    by code_simp
  have r: "list_all (\<lambda>l. l \<notin> true_literals ''TTTTFFFFFFFF'' (state_map air_cargo_p1))
        (effect_rem (fly_action ''P1'' ''JFK'' ''SFO''))"
    by code_simp
  from result_irrelevant_effects_identity [OF d v a r] d v a r show ?thesis by blast
qed

section \<open>The memoised heuristics\<close>























text \<open>
  Two problems with the same atom universe and different goals, at references 0 and 1: a
  call for the second, in the state the first was just called with, is a miss and returns
  the second problem's own estimate; the repeated call for the first is a hit.
\<close>

lemma memoised_cross_instance_example:
  "fst (lru_call h_ignore_preconditions
          (\<lambda>ref. if ref = 0 then air_cargo_p1 else air_cargo_p1\<lparr>goal := [Expr ''At'' [''C1'', ''JFK'']]\<rparr>)
          [] 0 \<lparr>state = ''TTTTFFFFFFFF'', path_cost = 0\<rparr>) = 2
   \<and> fst (lru_call h_ignore_preconditions
          (\<lambda>ref. if ref = 0 then air_cargo_p1 else air_cargo_p1\<lparr>goal := [Expr ''At'' [''C1'', ''JFK'']]\<rparr>)
          [((0, ''TTTTFFFFFFFF''), 2)] 1 \<lparr>state = ''TTTTFFFFFFFF'', path_cost = 0\<rparr>) = 1
   \<and> snd (lru_call h_ignore_preconditions
          (\<lambda>ref. if ref = 0 then air_cargo_p1 else air_cargo_p1\<lparr>goal := [Expr ''At'' [''C1'', ''JFK'']]\<rparr>)
          [((1, ''TTTTFFFFFFFF''), 1), ((0, ''TTTTFFFFFFFF''), 2)] 0
          \<lparr>state = ''TTTTFFFFFFFF'', path_cost = 3\<rparr>)
       = [((0, ''TTTTFFFFFFFF''), 2), ((1, ''TTTTFFFFFFFF''), 1)]"
  by code_simp

end
